theory Spec2Isabelle
  imports Complex_Main "HOL-Library.Log_Nat"
begin

section \<open>Errors and assertions\<close>

text \<open>
  Every \<^verbatim>\<open>throw\<close> of \<^verbatim>\<open>OrderedCollection.ts\<close> is a value of this type. \<open>Error\<close> carries
  the message; \<open>TypeAssertionError\<close> carries the expected description and the name of the
  checked value (the offending value itself is left out).
\<close>

datatype error =
    Error string
  | AssertionError string
  | TypeAssertionError string string
  | IllegalConstructorError string

text \<open>
  Modelled from the spec: the helpers \<^verbatim>\<open>assert\<close> and \<^verbatim>\<open>assert.string\<close> of \<^verbatim>\<open>./assert\<close> are not
  among the sources. A failed \<^verbatim>\<open>assert(condition, message)\<close> raises an assertion error with
  the message; \<^verbatim>\<open>assert.string(value, name)\<close> raises a type assertion error (an assertion
  error) unless the value is a string.
\<close>

definition assert :: "bool \<Rightarrow> string \<Rightarrow> error + unit" where
  "assert condition message = (if condition then Inr () else Inl (AssertionError message))"

definition assert_string :: "string option \<Rightarrow> string \<Rightarrow> error + string" where
  "assert_string v name =
     (case v of Some s \<Rightarrow> Inr s | None \<Rightarrow> Inl (TypeAssertionError ''a string'' name))"

fun is_assertion_error :: "error \<Rightarrow> bool" where
  "is_assertion_error (AssertionError m) = True"
| "is_assertion_error (TypeAssertionError e n) = True"
| "is_assertion_error (Error m) = False"
| "is_assertion_error (IllegalConstructorError c) = False"

section \<open>JavaScript numbers\<close>

text \<open>
  A number of the language is a double. \<open>round_double\<close> rounds an integer to the nearest
  integer that a 53-bit significand can hold, ties to even. \<^verbatim>\<open>Number(result)\<close> on a bigint of
  the engine (64 bits) is that rounding.
\<close>

definition round_double :: "int \<Rightarrow> int" where
  "round_double n =
     (let m = \<bar>n\<bar>; k = bitlen m in
      if k \<le> 53 then n
      else
        (let s = nat (k - 53); q = m div 2 ^ s; r = m mod 2 ^ s; half = 2 ^ (s - 1);
             q' = (if half < r \<or> (r = half \<and> odd q) then q + 1 else q)
         in sgn n * (q' * 2 ^ s)))"

definition Number_of_bigint :: "int \<Rightarrow> real" where
  "Number_of_bigint n = real_of_int (round_double n)"

text \<open>
  The numbers that index arithmetic meets: \<^verbatim>\<open>NaN\<close>, the integers among the doubles, and
  the two infinities (\<open>-0\<close> is taken as \<open>0\<close>). \<open>Number_of_int\<close> is the number that an
  integer of mathematics becomes: the nearest double, or an infinity from \<open>2 ^ 1024\<close> on.
\<close>

datatype jsnumber = NaN | Finite int | PosInfinity | NegInfinity

definition Number_of_int :: "int \<Rightarrow> jsnumber" where
  "Number_of_int i =
     (let r = round_double i in
      if 2 ^ 1024 \<le> r then PosInfinity
      else if r \<le> - (2 ^ 1024) then NegInfinity
      else Finite r)"

subsection \<open>\<^verbatim>\<open>Number::toString\<close>\<close>

text \<open>
  The string of a number, as the language defines it for radix 10: with \<open>k\<close> as small as
  possible, digits \<open>s\<close> of length \<open>k\<close> and an exponent \<open>n\<close> such that \<open>s * 10 ^ (n - k)\<close>
  rounds to the number; among several \<open>s\<close> the closest, then the even one. Up to
  \<open>n = 21\<close> the string is the digits and \<open>n - k\<close> zeros; beyond it is the exponent form,
  such as \<^verbatim>\<open>1e+21\<close> and \<^verbatim>\<open>1.5e+21\<close>. For an integer \<open>x\<close> of \<open>D\<close> digits the candidates of
  length \<open>k\<close> are the first \<open>k\<close> digits of \<open>x\<close>, these plus one, and \<open>10 ^ D\<close>.
\<close>

function digits_of :: "int \<Rightarrow> string" where
  "digits_of n =
     (if n < 10 then [char_of (48 + n)]
      else digits_of (n div 10) @ [char_of (48 + n mod 10)])"
  by pat_completeness auto
termination
  by (relation "measure nat") auto

definition decimal_length :: "int \<Rightarrow> nat" where
  "decimal_length x = length (digits_of x)"

definition shortest_candidates :: "int \<Rightarrow> nat \<Rightarrow> (int \<times> nat) list" where
  "shortest_candidates x k =
     (let D = decimal_length x; s = x div 10 ^ (D - k) in
      filter (\<lambda>(s, n). 0 < s \<and> decimal_length s = k \<and> k \<le> n \<and>
                        round_double (s * 10 ^ (n - k)) = x)
        ([(s, D), (s + 1, D)] @ (if k = 1 then [(1, D + 1)] else [])))"

definition distance :: "int \<Rightarrow> nat \<Rightarrow> int \<times> nat \<Rightarrow> int" where
  "distance x k c = \<bar>fst c * 10 ^ (snd c - k) - x\<bar>"

fun closest :: "int \<Rightarrow> nat \<Rightarrow> (int \<times> nat) list \<Rightarrow> (int \<times> nat) option" where
  "closest x k [] = None"
| "closest x k (c # cs) =
     (case closest x k cs of
        None \<Rightarrow> Some c
      | Some c' \<Rightarrow>
          if distance x k c < distance x k c' \<or>
             (distance x k c = distance x k c' \<and> even (fst c))
          then Some c else Some c')"

text \<open>
  The search for the least \<open>k\<close>, from \<open>k\<close> on and for at most \<open>m\<close> lengths; all the digits
  of \<open>x\<close> do for a double \<open>x\<close>, so the search from \<open>1\<close> for \<open>D\<close> lengths finds one.
\<close>

fun shortest_from :: "int \<Rightarrow> nat \<Rightarrow> nat \<Rightarrow> int \<times> nat" where
  "shortest_from x k 0 = (x, decimal_length x)"
| "shortest_from x k (Suc m) =
     (case closest x k (shortest_candidates x k) of
        Some c \<Rightarrow> c
      | None \<Rightarrow> shortest_from x (Suc k) m)"

definition shortest_digits :: "int \<Rightarrow> int \<times> nat" where
  "shortest_digits x = shortest_from x 1 (decimal_length x)"

definition positive_toString :: "int \<Rightarrow> string" where
  "positive_toString x =
     (let (s, n) = shortest_digits x; ds = digits_of s; k = length ds in
      if n \<le> 21 then ds @ replicate (n - k) (CHR ''0'')
      else if k = 1 then ds @ ''e+'' @ digits_of (int n - 1)
      else hd ds # CHR ''.'' # tl ds @ ''e+'' @ digits_of (int n - 1))"

definition Number_toString :: "jsnumber \<Rightarrow> string" where
  "Number_toString v =
     (case v of
        NaN \<Rightarrow> ''NaN''
      | PosInfinity \<Rightarrow> ''Infinity''
      | NegInfinity \<Rightarrow> ''-Infinity''
      | Finite x \<Rightarrow>
          if x = 0 then ''0''
          else if x < 0 then CHR ''-'' # positive_toString (- x)
          else positive_toString x)"

section \<open>The binding: native results and the heap\<close>

type_synonym ColKey = int

datatype Date = Date int

text \<open>A \<^verbatim>\<open>binding.Timestamp\<close>, known by the date its \<^verbatim>\<open>toDate()\<close> gives.\<close>

datatype Timestamp = Timestamp (toDate: Date)

text \<open>
  What the native aggregates return: a date, a number, \<^verbatim>\<open>undefined\<close>, a bigint, a
  \<^verbatim>\<open>binding.Float\<close>, a \<^verbatim>\<open>binding.Timestamp\<close>, or anything else.
\<close>

datatype native_aggregate =
    NDate Date
  | NNumber real
  | NUndefined
  | NBigInt int
  | NFloat (float_value: real)
  | NTimestamp Timestamp
  | NOther

datatype number_repr = AsNumber | AsBigInt | AsFloat

fun zero_of :: "number_repr \<Rightarrow> native_aggregate" where
  "zero_of AsNumber = NNumber 0"
| "zero_of AsBigInt = NBigInt 0"
| "zero_of AsFloat = NFloat 0"

text \<open>
  A \<^verbatim>\<open>binding.Results\<close>: the elements in order, the object type name (the empty string for
  a collection of primitives), what the engine computes for the aggregates of a
  collection that has elements, and the order in which it sorts the elements by a list of
  (property path, ascending) pairs.
\<close>

record 'b Results =
  elements :: "'b list"
  objectType :: string
  nonempty_min :: "ColKey \<Rightarrow> native_aggregate"
  nonempty_max :: "ColKey \<Rightarrow> native_aggregate"
  nonempty_sum :: "ColKey \<Rightarrow> native_aggregate"
  nonempty_average :: "ColKey \<Rightarrow> native_aggregate"
  sum_repr :: "ColKey \<Rightarrow> number_repr"
  sorted_elements :: "(string \<times> bool) list \<Rightarrow> error + 'b list"

text \<open>
  Modelled from the spec: the native engine is not among the sources. \<^verbatim>\<open>size()\<close> is the
  number of elements; \<^verbatim>\<open>get(i)\<close> gives the element at \<open>i\<close> and fails outside the
  collection; \<^verbatim>\<open>indexOf\<close> gives the first position of a value or \<open>-1\<close>; \<^verbatim>\<open>min\<close>, \<^verbatim>\<open>max\<close> and
  \<^verbatim>\<open>average\<close> of an empty collection are absent and its \<^verbatim>\<open>sum\<close> is \<open>0\<close>.
\<close>

definition size_results :: "'b Results \<Rightarrow> int" where
  "size_results r = int (length (elements r))"

definition get_results :: "'b Results \<Rightarrow> int \<Rightarrow> error + 'b" where
  "get_results r i =
     (if 0 \<le> i \<and> i < size_results r then Inr (elements r ! nat i)
      else Inl (Error ''Requested index is out of bounds''))"

fun first_index :: "'b list \<Rightarrow> 'b \<Rightarrow> int \<Rightarrow> int" where
  "first_index [] x i = -1"
| "first_index (y # ys) x i = (if y = x then i else first_index ys x (i + 1))"

definition indexOf_results :: "'b Results \<Rightarrow> 'b \<Rightarrow> int" where
  "indexOf_results r x = first_index (elements r) x 0"

definition indexOfObj_results :: "'b Results \<Rightarrow> 'b \<Rightarrow> int" where
  "indexOfObj_results r x = first_index (elements r) x 0"

definition min_results :: "'b Results \<Rightarrow> ColKey \<Rightarrow> native_aggregate" where
  "min_results r ck = (if elements r = [] then NUndefined else nonempty_min r ck)"

definition max_results :: "'b Results \<Rightarrow> ColKey \<Rightarrow> native_aggregate" where
  "max_results r ck = (if elements r = [] then NUndefined else nonempty_max r ck)"

definition sum_results :: "'b Results \<Rightarrow> ColKey \<Rightarrow> native_aggregate" where
  "sum_results r ck = (if elements r = [] then zero_of (sum_repr r ck) else nonempty_sum r ck)"

definition average_results :: "'b Results \<Rightarrow> ColKey \<Rightarrow> native_aggregate" where
  "average_results r ck = (if elements r = [] then NUndefined else nonempty_average r ck)"

text \<open>
  The facade holds a handle to its live results; the engine and other code change what
  the handle stands for. The heap maps every handle to the current results, and
  \<open>next_handle\<close> is the first handle not yet given out.
\<close>

type_synonym handle = nat

record 'b heap =
  cells :: "handle \<Rightarrow> 'b Results"
  next_handle :: handle

section \<open>The ordered collection\<close>

text \<open>
  \<^verbatim>\<open>TypeHelpers\<close>: the conversions between host values \<open>'v\<close> and native values \<open>'b\<close>, the
  test \<^verbatim>\<open>instanceof RealmObject\<close> and \<^verbatim>\<open>getInternal\<close>.

  Modelled from the spec: \<^verbatim>\<open>helpers.get(results, index)\<close> is supplied by the subclasses, which
  are not among the sources; it is the engine's \<^verbatim>\<open>get(i)\<close> on the results it is given.
\<close>

record ('b, 'v) OrderedCollectionHelpers =
  fromBinding :: "'b \<Rightarrow> 'v"
  toBinding :: "'v \<Rightarrow> error + 'b"
  isRealmObject :: "'v \<Rightarrow> bool"
  getInternal :: "'v \<Rightarrow> 'b"

definition helpers_get :: "'b heap \<Rightarrow> handle \<Rightarrow> int \<Rightarrow> error + 'b" where
  "helpers_get h r index = get_results (cells h r) index"

text \<open>
  \<^verbatim>\<open>ClassHelpers\<close>: the column key of every property of the class. Modelled from the spec:
  \<^verbatim>\<open>properties.get(name)\<close> is not among the sources; naming an unknown property is an
  error.
\<close>

record ClassHelpers =
  properties :: "string \<rightharpoonup> ColKey"

definition properties_get :: "ClassHelpers \<Rightarrow> string \<Rightarrow> error + ColKey" where
  "properties_get ch name =
     (case properties ch name of
        Some ck \<Rightarrow> Inr ck
      | None \<Rightarrow> Inl (Error (''Property '' @ name @ '' does not exist'')))"

text \<open>
  Property keys are strings or symbols. A member of the target object (its own
  properties and those of its prototypes) is a data property with its writable flag, or
  an accessor with a getter only, such as \<^verbatim>\<open>length\<close>.
\<close>

datatype pkey = PString string | PSymbol nat

datatype ('b, 'v) member = Data 'v bool | Getter "'b Results \<Rightarrow> 'v"

record ('b, 'v) OrderedCollection =
  results :: handle
  helpers :: "('b, 'v) OrderedCollectionHelpers"
  classHelpers :: "ClassHelpers option"
  constructor_name :: string
  members :: "pkey \<rightharpoonup> ('b, 'v) member"

definition DEFAULT_COLUMN_KEY :: ColKey where
  "DEFAULT_COLUMN_KEY = 0"

text \<open>
  The constructor: no arguments is an error; class helpers are looked up when the
  results have a non-empty object type name.
\<close>

definition new_OrderedCollection ::
  "((string \<Rightarrow> ClassHelpers) \<times> handle \<times> ('b, 'v) OrderedCollectionHelpers) option \<Rightarrow>
   string \<Rightarrow> (pkey \<rightharpoonup> ('b, 'v) member) \<Rightarrow> 'b heap \<Rightarrow> error + ('b, 'v) OrderedCollection" where
  "new_OrderedCollection arguments name declared h =
     (case arguments of
        None \<Rightarrow> Inl (IllegalConstructorError ''OrderedCollection'')
      | Some (getClassHelpers, res, hlp) \<Rightarrow>
          Inr \<lparr> results = res, helpers = hlp,
                classHelpers =
                  (if objectType (cells h res) \<noteq> ''''
                   then Some (getClassHelpers (objectType (cells h res))) else None),
                constructor_name = name, members = declared \<rparr>)"

definition get :: "('b, 'v) OrderedCollection \<Rightarrow> 'b heap \<Rightarrow> int \<Rightarrow> error + 'v" where
  "get this h index =
     (case helpers_get h (results this) index of
        Inl e \<Rightarrow> Inl e
      | Inr b \<Rightarrow> Inr (fromBinding (helpers this) b))"

text \<open>
  \<^verbatim>\<open>set\<close> returns the outcome and the heap after the call. Its index is any number: the
  proxy hands it whatever \<^verbatim>\<open>Number.parseInt\<close> reads.
\<close>

definition set_oc ::
  "('b, 'v) OrderedCollection \<Rightarrow> 'b heap \<Rightarrow> jsnumber \<Rightarrow> 'v \<Rightarrow> (error + unit) \<times> 'b heap" where
  "set_oc this h index v =
     (Inl (Error (''Assigning into a '' @ constructor_name this @ '' is not support'')), h)"

definition length_oc :: "('b, 'v) OrderedCollection \<Rightarrow> 'b heap \<Rightarrow> int" where
  "length_oc this h = size_results (cells h (results this))"

definition isEmpty :: "('b, 'v) OrderedCollection \<Rightarrow> 'b heap \<Rightarrow> bool" where
  "isEmpty this h = (size_results (cells h (results this)) = 0)"

definition indexOf ::
  "('b, 'v) OrderedCollection \<Rightarrow> 'b heap \<Rightarrow> 'v \<Rightarrow> int option \<Rightarrow> error + int" where
  "indexOf this h searchElement fromIndex =
     (case assert (fromIndex = None) ''The second fromIndex argument is not yet supported'' of
        Inl e \<Rightarrow> Inl e
      | Inr _ \<Rightarrow>
          if isRealmObject (helpers this) searchElement
          then Inr (indexOfObj_results (cells h (results this))
                      (getInternal (helpers this) searchElement))
          else (case toBinding (helpers this) searchElement of
                  Inl e \<Rightarrow> Inl e
                | Inr b \<Rightarrow> Inr (indexOf_results (cells h (results this)) b)))"

subsection \<open>Aggregates\<close>

definition getPropertyColumnKey ::
  "('b, 'v) OrderedCollection \<Rightarrow> string option \<Rightarrow> error + ColKey" where
  "getPropertyColumnKey this name =
     (case classHelpers this of
        Some ch \<Rightarrow>
          (case assert_string name ''name'' of
             Inl e \<Rightarrow> Inl e
           | Inr n \<Rightarrow> properties_get ch n)
      | None \<Rightarrow>
          (case name of
             Some n \<Rightarrow>
               if n \<noteq> ''''
               then Inl (Error (''Cannot get property named '' @ [CHR 39] @ n @ [CHR 39]
                                 @ '' on a list of primitives''))
               else Inr DEFAULT_COLUMN_KEY
           | None \<Rightarrow> Inr DEFAULT_COLUMN_KEY))"

text \<open>What an aggregate gives the caller: \<^verbatim>\<open>undefined\<close>, a number or a date.\<close>

datatype aggregate = Undefined | Number real | ADate Date

definition min_oc ::
  "('b, 'v) OrderedCollection \<Rightarrow> 'b heap \<Rightarrow> string option \<Rightarrow> error + aggregate" where
  "min_oc this h property =
     (case getPropertyColumnKey this property of
        Inl e \<Rightarrow> Inl e
      | Inr columnKey \<Rightarrow>
          (case min_results (cells h (results this)) columnKey of
             NDate d \<Rightarrow> Inr (ADate d)
           | NNumber x \<Rightarrow> Inr (Number x)
           | NUndefined \<Rightarrow> Inr Undefined
           | NBigInt n \<Rightarrow> Inr (Number (Number_of_bigint n))
           | NFloat x \<Rightarrow> Inr (Number x)
           | NTimestamp t \<Rightarrow> Inr (ADate (toDate t))
           | NOther \<Rightarrow>
               Inl (TypeAssertionError ''Timestamp, number, bigint, Float or null'' ''result'')))"

definition max_oc ::
  "('b, 'v) OrderedCollection \<Rightarrow> 'b heap \<Rightarrow> string option \<Rightarrow> error + aggregate" where
  "max_oc this h property =
     (case getPropertyColumnKey this property of
        Inl e \<Rightarrow> Inl e
      | Inr columnKey \<Rightarrow>
          (case max_results (cells h (results this)) columnKey of
             NDate d \<Rightarrow> Inr (ADate d)
           | NNumber x \<Rightarrow> Inr (Number x)
           | NUndefined \<Rightarrow> Inr Undefined
           | NBigInt n \<Rightarrow> Inr (Number (Number_of_bigint n))
           | NFloat x \<Rightarrow> Inr (Number x)
           | NTimestamp t \<Rightarrow> Inr (ADate (toDate t))
           | NOther \<Rightarrow>
               Inl (TypeAssertionError ''Timestamp, number, bigint, Float or undefined''
                      ''result'')))"

definition sum_oc ::
  "('b, 'v) OrderedCollection \<Rightarrow> 'b heap \<Rightarrow> string option \<Rightarrow> error + aggregate" where
  "sum_oc this h property =
     (case getPropertyColumnKey this property of
        Inl e \<Rightarrow> Inl e
      | Inr columnKey \<Rightarrow>
          (case sum_results (cells h (results this)) columnKey of
             NNumber x \<Rightarrow> Inr (Number x)
           | NBigInt n \<Rightarrow> Inr (Number (Number_of_bigint n))
           | NFloat x \<Rightarrow> Inr (Number x)
           | _ \<Rightarrow> Inl (TypeAssertionError ''number, bigint or Float'' ''result'')))"

definition avg ::
  "('b, 'v) OrderedCollection \<Rightarrow> 'b heap \<Rightarrow> string option \<Rightarrow> error + aggregate" where
  "avg this h property =
     (case getPropertyColumnKey this property of
        Inl e \<Rightarrow> Inl e
      | Inr columnKey \<Rightarrow>
          (case average_results (cells h (results this)) columnKey of
             NNumber x \<Rightarrow> Inr (Number x)
           | NUndefined \<Rightarrow> Inr Undefined
           | NBigInt n \<Rightarrow> Inr (Number (Number_of_bigint n))
           | NFloat x \<Rightarrow> Inr (Number x)
           | _ \<Rightarrow> Inl (TypeAssertionError ''number, Float, bigint or undefined'' ''result'')))"

section \<open>Index emulation: the proxy handler\<close>

subsection \<open>\<^verbatim>\<open>Number.parseInt(prop, 10)\<close>\<close>

text \<open>
  A string of the model is a sequence of code units below 256; of these, the white space
  of the language is the six ASCII ones and the no-break space. \<^verbatim>\<open>parseInt\<close> skips leading
  white space, reads an optional sign and then the longest run of decimal digits; with no
  digit the result is \<^verbatim>\<open>NaN\<close>, and otherwise the number that the integer read, with all
  its digits, becomes.
\<close>

definition is_whitespace :: "char \<Rightarrow> bool" where
  "is_whitespace c =
     ((of_char c :: nat) = 9 \<or> (of_char c :: nat) = 10 \<or> (of_char c :: nat) = 11 \<or>
      (of_char c :: nat) = 12 \<or> (of_char c :: nat) = 13 \<or> (of_char c :: nat) = 32 \<or>
      (of_char c :: nat) = 160)"

definition is_digit :: "char \<Rightarrow> bool" where
  "is_digit c = (48 \<le> (of_char c :: nat) \<and> (of_char c :: nat) \<le> 57)"

definition digit_value :: "char \<Rightarrow> int" where
  "digit_value c = int (of_char c) - 48"

definition parseInt :: "string \<Rightarrow> jsnumber" where
  "parseInt inputString =
     (let S = dropWhile is_whitespace inputString;
          sign = (if S \<noteq> [] \<and> hd S = CHR ''-'' then - 1 else 1);
          S' = (if S \<noteq> [] \<and> (hd S = CHR ''+'' \<or> hd S = CHR ''-'') then tl S else S);
          Z = takeWhile is_digit S'
      in if Z = [] then NaN
         else Number_of_int (sign * foldl (\<lambda>a c. 10 * a + digit_value c) 0 Z))"

text \<open>
  The property key of an index: \<^verbatim>\<open>collection[i]\<close> reads the property named by the string of
  the number \<open>i\<close>. That is the decimal numeral of \<open>i\<close> below \<open>10 ^ 21\<close> and the exponent form
  from there on.
\<close>

definition String_of_index :: "int \<Rightarrow> string" where
  "String_of_index i = Number_toString (Number_of_int i)"

subsection \<open>\<^verbatim>\<open>Reflect\<close> on the target\<close>



definition Reflect_set ::
  "('b, 'v) OrderedCollection \<Rightarrow> pkey \<Rightarrow> 'v \<Rightarrow> bool \<times> ('b, 'v) OrderedCollection" where
  "Reflect_set target prop v =
     (case members target prop of
        None \<Rightarrow> (True, target\<lparr>members := (members target)(prop \<mapsto> Data v True)\<rparr>)
      | Some (Data old w) \<Rightarrow>
          if w then (True, target\<lparr>members := (members target)(prop \<mapsto> Data v True)\<rparr>)
          else (False, target)
      | Some (Getter g) \<Rightarrow> (False, target))"

subsection \<open>The handler\<close>


text \<open>
  The comparisons of the \<^verbatim>\<open>set\<close> trap: \<^verbatim>\<open>!Number.isNaN(index) && index >= 0\<close> and
  \<^verbatim>\<open>index < 0\<close>. Both are false of \<^verbatim>\<open>NaN\<close>.
\<close>

fun is_nonnegative :: "jsnumber \<Rightarrow> bool" where
  "is_nonnegative NaN = False"
| "is_nonnegative (Finite i) = (0 \<le> i)"
| "is_nonnegative PosInfinity = True"
| "is_nonnegative NegInfinity = False"

fun is_negative :: "jsnumber \<Rightarrow> bool" where
  "is_negative NaN = False"
| "is_negative (Finite i) = (i < 0)"
| "is_negative PosInfinity = False"
| "is_negative NegInfinity = True"

text \<open>
  The \<^verbatim>\<open>set\<close> trap. \<^verbatim>\<open>target.set\<close> is the method of the target's class, which a subclass
  may override: it is the first argument. The trap gives its outcome, the target and the
  heap after the call.
\<close>

definition PROXY_HANDLER_set ::
  "(('b, 'v) OrderedCollection \<Rightarrow> 'b heap \<Rightarrow> jsnumber \<Rightarrow> 'v \<Rightarrow> (error + unit) \<times> 'b heap) \<Rightarrow>
   ('b, 'v) OrderedCollection \<Rightarrow> 'b heap \<Rightarrow> pkey \<Rightarrow> 'v \<Rightarrow>
   (error + bool) \<times> ('b, 'v) OrderedCollection \<times> 'b heap" where
  "PROXY_HANDLER_set target_set target h prop v =
     (let reflect = (Inr (fst (Reflect_set target prop v)), snd (Reflect_set target prop v), h) in
      case prop of
        PString s \<Rightarrow>
          (let index = parseInt s in
           if is_nonnegative index
           then (case target_set target h index v of
                   (Inl e, h') \<Rightarrow> (Inl e, target, h')
                 | (Inr u, h') \<Rightarrow> (Inr True, target, h'))
           else if is_negative index
           then (Inl (Error (''Index '' @ Number_toString index
                              @ '' cannot be less than zero.'')), target, h)
           else reflect)
      | PSymbol y \<Rightarrow> reflect)"

text \<open>No member of the target has a name that reads as an integer.\<close>

definition index_free :: "('b, 'v) OrderedCollection \<Rightarrow> bool" where
  "index_free target = (\<forall>s. members target (PString s) \<noteq> None \<longrightarrow> parseInt s = NaN)"

subsection \<open>A collection of three numbers\<close>

definition example_results :: "int Results" where
  "example_results =
     \<lparr> elements = [10, 20, 30], objectType = [],
       nonempty_min = (\<lambda>ck. NBigInt 10), nonempty_max = (\<lambda>ck. NBigInt 30),
       nonempty_sum = (\<lambda>ck. NBigInt 60), nonempty_average = (\<lambda>ck. NNumber 20),
       sum_repr = (\<lambda>ck. AsBigInt),
       sorted_elements =
         (\<lambda>ds. if ds = [(''self'', True)] then Inr [10, 20, 30]
               else if ds = [(''self'', False)] then Inr [30, 20, 10]
               else Inl (Error ''Cannot sort on key path'')) \<rparr>"

definition example_heap :: "int heap" where
  "example_heap = \<lparr> cells = (\<lambda>r. example_results), next_handle = 1 \<rparr>"

definition example_helpers :: "(int, int) OrderedCollectionHelpers" where
  "example_helpers =
     \<lparr> fromBinding = (\<lambda>b. b + 1), toBinding = (\<lambda>v. Inr (v - 1)),
       isRealmObject = (\<lambda>v. False), getInternal = (\<lambda>v. v) \<rparr>"

definition example_collection :: "(int, int) OrderedCollection" where
  "example_collection =
     \<lparr> results = 0, helpers = example_helpers, classHelpers = None,
       constructor_name = ''Results'',
       members = [PString ''realm'' \<mapsto> Data 0 False] \<rparr>"

section \<open>Iteration over a snapshot\<close>

text \<open>
  Modelled from the spec: the engine's \<^verbatim>\<open>snapshot()\<close> is not among the sources. It gives a
  new handle to an immutable, point-in-time copy of the results; \<open>write_results\<close> is a
  change of the live collection behind a handle, made by the engine or by other code.
\<close>

definition snapshot_results :: "'b heap \<Rightarrow> handle \<Rightarrow> handle \<times> 'b heap" where
  "snapshot_results h r =
     (next_handle h,
      h\<lparr>cells := (cells h)(next_handle h := cells h r), next_handle := Suc (next_handle h)\<rparr>)"

definition write_results :: "handle \<Rightarrow> ('b list \<Rightarrow> 'b list) \<Rightarrow> 'b heap \<Rightarrow> 'b heap" where
  "write_results r f h =
     h\<lparr>cells := (cells h)(r := (cells h r)\<lparr>elements := f (elements (cells h r))\<rparr>)\<rparr>"

text \<open>
  The iterator of \<^verbatim>\<open>keys()\<close>: the size read when it was made, and the next index.
  \<^verbatim>\<open>next()\<close> gives \<open>Some\<close> of the value, or \<open>None\<close> when done.
\<close>

record keys_iterator =
  keys_size :: int
  keys_index :: int

definition keys :: "('b, 'v) OrderedCollection \<Rightarrow> 'b heap \<Rightarrow> keys_iterator" where
  "keys this h = \<lparr> keys_size = size_results (cells h (results this)), keys_index = 0 \<rparr>"

definition keys_next :: "keys_iterator \<Rightarrow> int option \<times> keys_iterator" where
  "keys_next it =
     (if keys_index it < keys_size it
      then (Some (keys_index it), it\<lparr>keys_index := keys_index it + 1\<rparr>)
      else (None, it))"

text \<open>
  The iterator of \<^verbatim>\<open>values()\<close>: the snapshot, the conversion, and the iterator of
  \<^verbatim>\<open>keys()\<close>, all taken when it was made.
\<close>

record ('b, 'v) values_iterator =
  values_snapshot :: handle
  values_fromBinding :: "'b \<Rightarrow> 'v"
  values_keys :: keys_iterator

definition values_oc ::
  "('b, 'v) OrderedCollection \<Rightarrow> 'b heap \<Rightarrow> ('b, 'v) values_iterator \<times> 'b heap" where
  "values_oc this h =
     (let (snapshot, h') = snapshot_results h (results this);
          fromBinding' = fromBinding (helpers this);
          keys' = keys this h'
      in (\<lparr> values_snapshot = snapshot, values_fromBinding = fromBinding',
            values_keys = keys' \<rparr>, h'))"

definition values_next ::
  "'b heap \<Rightarrow> ('b, 'v) values_iterator \<Rightarrow> (error + 'v option) \<times> ('b, 'v) values_iterator" where
  "values_next h it =
     (case keys_next (values_keys it) of
        (None, k) \<Rightarrow> (Inr None, it\<lparr>values_keys := k\<rparr>)
      | (Some index, k) \<Rightarrow>
          (case helpers_get h (values_snapshot it) index of
             Inl e \<Rightarrow> (Inl e, it\<lparr>values_keys := k\<rparr>)
           | Inr b \<Rightarrow> (Inr (Some (values_fromBinding it b)), it\<lparr>values_keys := k\<rparr>)))"

text \<open>Default iteration, \<^verbatim>\<open>[Symbol.iterator]()\<close>, is \<^verbatim>\<open>values()\<close>.\<close>

definition Symbol_iterator ::
  "('b, 'v) OrderedCollection \<Rightarrow> 'b heap \<Rightarrow> ('b, 'v) values_iterator \<times> 'b heap" where
  "Symbol_iterator this h = values_oc this h"

text \<open>\<^verbatim>\<open>[...iterator]\<close>: \<^verbatim>\<open>next()\<close> until done, in the heap of the moment.\<close>

function spread :: "'b heap \<Rightarrow> ('b, 'v) values_iterator \<Rightarrow> error + 'v list" where
  "spread h it =
     (case values_next h it of
        (Inl e, it') \<Rightarrow> Inl e
      | (Inr None, it') \<Rightarrow> Inr []
      | (Inr (Some v), it') \<Rightarrow>
          (case spread h it' of Inl e \<Rightarrow> Inl e | Inr vs \<Rightarrow> Inr (v # vs)))"
  by pat_completeness auto
termination
  by (relation "measure (\<lambda>(h, it). nat (keys_size (values_keys it) - keys_index (values_keys it)))")
     (auto simp: values_next_def keys_next_def split: if_splits sum.splits)

section \<open>Sorting\<close>

datatype SortDescriptor = Name string | Pair string bool

text \<open>The first argument of \<^verbatim>\<open>sorted\<close> as the code tells its cases apart.\<close>

datatype sorted_arg0 =
    Arg0_undefined
  | Arg0_array "SortDescriptor list"
  | Arg0_string string
  | Arg0_boolean bool
  | Arg0_other

text \<open>
  Modelled from the spec: the engine's \<^verbatim>\<open>sortByNames\<close> is not among the sources. It gives
  a new backing collection, the elements in the order of the descriptors, or fails on a
  property path it cannot resolve.
\<close>

definition sortByNames ::
  "'b heap \<Rightarrow> handle \<Rightarrow> (string \<times> bool) list \<Rightarrow> (error + handle) \<times> 'b heap" where
  "sortByNames h r descriptors =
     (case sorted_elements (cells h r) descriptors of
        Inl e \<Rightarrow> (Inl e, h)
      | Inr xs \<Rightarrow>
          (Inr (next_handle h),
           h\<lparr>cells := (cells h)(next_handle h := (cells h r)\<lparr>elements := xs\<rparr>),
             next_handle := Suc (next_handle h)\<rparr>))"

text \<open>Map optional "reversed" to "ascending", as the binding expects.\<close>

fun descriptor :: "SortDescriptor \<Rightarrow> string \<times> bool" where
  "descriptor (Name arg) = (arg, True)"
| "descriptor (Pair path reverse) = (path, \<not> reverse)"

text \<open>
  \<^verbatim>\<open>sorted\<close> gives the handle of the sorted results, on which it builds the new
  \<^verbatim>\<open>Results\<close> with the realm and the helpers of this collection. A missing first argument
  is \<^verbatim>\<open>"self"\<close>.
\<close>

function sorted_oc ::
  "('b, 'v) OrderedCollection \<Rightarrow> 'b heap \<Rightarrow> sorted_arg0 \<Rightarrow> bool option \<Rightarrow>
   (error + handle) \<times> 'b heap" where
  "sorted_oc this h Arg0_undefined arg1 = sorted_oc this h (Arg0_string ''self'') arg1"
| "sorted_oc this h (Arg0_array arg0) arg1 =
     (let descriptors = map descriptor arg0 in sortByNames h (results this) descriptors)"
| "sorted_oc this h (Arg0_string arg0) arg1 =
     sorted_oc this h (Arg0_array [Pair arg0 (arg1 = Some True)]) None"
| "sorted_oc this h (Arg0_boolean arg0) arg1 =
     sorted_oc this h (Arg0_array [Pair ''self'' arg0]) None"
| "sorted_oc this h Arg0_other arg1 =
     (Inl (Error ''Expected either a property name and optional bool or an array of descriptors''),
      h)"
  by pat_completeness auto
termination
  by (relation "measure (\<lambda>(this, h, arg0, arg1).
        case arg0 of Arg0_undefined \<Rightarrow> 2 | Arg0_string s \<Rightarrow> 1 | Arg0_boolean b \<Rightarrow> 1
        | Arg0_array ds \<Rightarrow> 0 | Arg0_other \<Rightarrow> (0::nat))") auto

section \<open>Change notifications\<close>

type_synonym IndexRange = "nat \<times> nat"

text \<open>
  Modelled from the spec: \<^verbatim>\<open>unwind\<close> of \<^verbatim>\<open>./ranges\<close> is not among the sources. It expands
  a list of half-open index ranges into the sequence of the indices they cover, range
  after range, and checks nothing.
\<close>

function indices_between :: "nat \<Rightarrow> nat \<Rightarrow> nat list" where
  "indices_between i b = (if i < b then i # indices_between (Suc i) b else [])"
  by pat_completeness auto
termination
  by (relation "measure (\<lambda>(i, b). b - i)") auto

fun unwind :: "IndexRange list \<Rightarrow> nat list" where
  "unwind [] = []"
| "unwind ((a, b) # ranges) = indices_between a b @ unwind ranges"

text \<open>The ranges are in ascending order and do not overlap.\<close>

fun ascending_ranges :: "IndexRange list \<Rightarrow> bool" where
  "ascending_ranges [] = True"
| "ascending_ranges [(a, b)] = (a \<le> b)"
| "ascending_ranges ((a, b) # (c, d) # ranges) =
     (a \<le> b \<and> b \<le> c \<and> ascending_ranges ((c, d) # ranges))"

text \<open>The payload of the engine, and the change set the listeners get.\<close>

record CollectionChanges =
  changes_deletions :: "IndexRange list"
  changes_insertions :: "IndexRange list"
  changes_modifications :: "IndexRange list"
  changes_modificationsNew :: "IndexRange list"

record CollectionChangeSet =
  insertions :: "nat list"
  deletions :: "nat list"
  newModifications :: "nat list"
  oldModifications :: "nat list"

definition changeSet :: "CollectionChanges \<Rightarrow> CollectionChangeSet" where
  "changeSet changes =
     \<lparr> insertions = unwind (changes_insertions changes),
       deletions = unwind (changes_deletions changes),
       newModifications = unwind (changes_modificationsNew changes),
       oldModifications = unwind (changes_modifications changes) \<rparr>"

text \<open>
  A listener gets the collection and the change set; it changes the state \<open>'s\<close> of the
  application and may raise (\<open>Some err\<close>). The runtime is that state and the queue of
  \<^verbatim>\<open>setImmediate\<close>: each entry is a function that throws the error it holds.
\<close>

type_synonym ('c, 's, 'e) CollectionChangeCallback =
  "'c \<Rightarrow> CollectionChangeSet \<Rightarrow> 's \<Rightarrow> 'e option \<times> 's"

record ('s, 'e) runtime =
  application :: 's
  immediates :: "'e list"

text \<open>
  The function the constructor registers with \<^verbatim>\<open>addNotificationCallback\<close> for a listener:
  the outcome is the error that leaves it, if any, and the runtime after the call.
\<close>

definition notificationCallback ::
  "'c \<Rightarrow> ('c, 's, 'e) CollectionChangeCallback \<Rightarrow> CollectionChanges \<Rightarrow> ('s, 'e) runtime \<Rightarrow>
   'e option \<times> ('s, 'e) runtime" where
  "notificationCallback this callback changes rt =
     (case callback this (changeSet changes) (application rt) of
        (None, s) \<Rightarrow> (None, rt\<lparr>application := s\<rparr>)
      | (Some err, s) \<Rightarrow> (None, rt\<lparr>application := s, immediates := immediates rt @ [err]\<rparr>))"

text \<open>
  Modelled from the spec: the listener registry of \<^verbatim>\<open>./Collection\<close> and the engine's
  delivery are not among the sources. Every listener is registered through the function
  of the constructor; the engine calls the registered functions in registration order,
  and an error that leaves one of them unwinds the delivery. After the delivery the
  event loop runs the queue of \<^verbatim>\<open>setImmediate\<close>, where each entry throws.
\<close>

definition addListener ::
  "'c \<Rightarrow> ('c, 's, 'e) CollectionChangeCallback \<Rightarrow>
   (CollectionChanges \<Rightarrow> ('s, 'e) runtime \<Rightarrow> 'e option \<times> ('s, 'e) runtime) list \<Rightarrow>
   (CollectionChanges \<Rightarrow> ('s, 'e) runtime \<Rightarrow> 'e option \<times> ('s, 'e) runtime) list" where
  "addListener this callback registered = registered @ [notificationCallback this callback]"

fun deliver ::
  "(CollectionChanges \<Rightarrow> ('s, 'e) runtime \<Rightarrow> 'e option \<times> ('s, 'e) runtime) list \<Rightarrow>
   CollectionChanges \<Rightarrow> ('s, 'e) runtime \<Rightarrow> 'e option \<times> ('s, 'e) runtime" where
  "deliver [] changes rt = (None, rt)"
| "deliver (f # fs) changes rt =
     (case f changes rt of
        (Some err, rt') \<Rightarrow> (Some err, rt')
      | (None, rt') \<Rightarrow> deliver fs changes rt')"

definition run_immediate :: "('s, 'e) runtime \<Rightarrow> 'e option \<times> ('s, 'e) runtime" where
  "run_immediate rt =
     (case immediates rt of
        [] \<Rightarrow> (None, rt)
      | err # rest \<Rightarrow> (Some err, rt\<lparr>immediates := rest\<rparr>))"

subsection \<open>Two listeners that log what they get\<close>

definition example_changes :: CollectionChanges where
  "example_changes =
     \<lparr> changes_deletions = [(0, 3), (5, 6)], changes_insertions = [(2, 4)],
       changes_modifications = [], changes_modificationsNew = [(7, 8)] \<rparr>"

definition failing_listener ::
  "(nat, (string \<times> CollectionChangeSet) list, string) CollectionChangeCallback" where
  "failing_listener c cs seen = (Some ''first failed'', seen @ [(''first'', cs)])"

definition logging_listener ::
  "(nat, (string \<times> CollectionChangeSet) list, string) CollectionChangeCallback" where
  "logging_listener c cs seen = (None, seen @ [(''second'', cs)])"

definition example_runtime :: "((string \<times> CollectionChangeSet) list, string) runtime" where
  "example_runtime = \<lparr> application = [], immediates = [] \<rparr>"

subsection \<open>An empty collection and a collection of objects\<close>

definition empty_results :: "int Results" where
  "empty_results = example_results\<lparr>elements := []\<rparr>"

definition empty_heap :: "int heap" where
  "empty_heap = \<lparr> cells = (\<lambda>r. empty_results), next_handle = 1 \<rparr>"

definition person_collection :: "(int, int) OrderedCollection" where
  "person_collection =
     example_collection\<lparr>classHelpers := Some \<lparr> properties = [''age'' \<mapsto> 1] \<rparr>\<rparr>"

section \<open>Further definitions for the proofs and examples\<close>

text \<open>
  What the search for the shortest digits keeps: positive digits \<open>s\<close> that fit in \<open>n\<close>
  places and round to \<open>x\<close>, where \<open>n\<close> is the number of digits of \<open>x\<close>, or one more with
  \<open>s = 1\<close>.
\<close>

definition good_digits :: "int \<Rightarrow> int \<Rightarrow> nat \<Rightarrow> bool" where
  "good_digits x s n =
     (0 < s \<and> decimal_length s \<le> n \<and>
      round_double (s * 10 ^ (n - decimal_length s)) = x \<and>
      (n = decimal_length x \<or> (n = decimal_length x + 1 \<and> s = 1)))"

text \<open>An empty collection of records, as the constructor builds it.\<close>

definition empty_person_results :: "int Results" where
  "empty_person_results = example_results\<lparr>elements := [], objectType := ''Person''\<rparr>"

definition empty_person_heap :: "int heap" where
  "empty_person_heap = \<lparr> cells = (\<lambda>r. empty_person_results), next_handle = 1 \<rparr>"

definition person_realm :: "string \<Rightarrow> ClassHelpers" where
  "person_realm name = \<lparr> properties = [''age'' \<mapsto> 1] \<rparr>"

definition empty_person_collection :: "(int, int) OrderedCollection" where
  "empty_person_collection =
     \<lparr> results = 0, helpers = example_helpers,
       classHelpers = Some \<lparr> properties = [''age'' \<mapsto> 1] \<rparr>,
       constructor_name = ''Results'',
       members = [PString ''realm'' \<mapsto> Data 0 False] \<rparr>"

section \<open>Numbers, their strings and \<^verbatim>\<open>parseInt\<close>\<close>

declare digits_of.simps [simp del]

declare indices_between.simps [simp del]

declare spread.simps [simp del]

lemma char_of_digit: "0 \<le> n \<Longrightarrow> char_of (48 + n :: int) = char_of (48 + nat n)"
proof -
  assume "0 \<le> n"
  then have "48 + n = int (48 + nat n)" by simp
  then show ?thesis by (simp only: char_of_nat)
qed

lemma is_digit_char_of: "0 \<le> n \<Longrightarrow> n < 10 \<Longrightarrow> is_digit (char_of (48 + n :: int))"
  by (simp add: char_of_digit is_digit_def)

lemma digit_value_char_of: "0 \<le> n \<Longrightarrow> n < 10 \<Longrightarrow> digit_value (char_of (48 + n :: int)) = n"
  by (simp add: char_of_digit digit_value_def)

lemma is_digit_not_special:
  "is_digit c \<Longrightarrow> \<not> is_whitespace c \<and> c \<noteq> CHR ''-'' \<and> c \<noteq> CHR ''+''"
  by (auto simp: is_digit_def is_whitespace_def)

lemma digits_of_small: "n < 10 \<Longrightarrow> digits_of n = [char_of (48 + n)]"
  by (subst digits_of.simps) simp

lemma digits_of_large:
  "\<not> n < 10 \<Longrightarrow> digits_of n = digits_of (n div 10) @ [char_of (48 + n mod 10)]"
  by (subst digits_of.simps) simp

lemma digits_of_nonempty: "digits_of n \<noteq> []"
  by (cases "n < 10") (simp_all add: digits_of_small digits_of_large)

lemma digits_of_digits: "0 \<le> n \<Longrightarrow> c \<in> set (digits_of n) \<Longrightarrow> is_digit c"
proof (induction n arbitrary: c rule: digits_of.induct)
  case (1 n)
  show ?case
  proof (cases "n < 10")
    case True
    with "1.prems" show ?thesis
      by (simp add: digits_of_small is_digit_char_of)
  next
    case False
    with "1.prems" have "c \<in> set (digits_of (n div 10)) \<or> c = char_of (48 + n mod 10)"
      by (auto simp: digits_of_large)
    moreover from False have "0 \<le> n div 10" by simp
    ultimately show ?thesis
      using "1.IH" [OF False] is_digit_char_of [of "n mod 10"] by auto
  qed
qed

lemma foldl_digits_of:
  "0 \<le> n \<Longrightarrow> foldl (\<lambda>a c. 10 * a + digit_value c) 0 (digits_of n) = n"
proof (induction n rule: digits_of.induct)
  case (1 n)
  show ?case
  proof (cases "n < 10")
    case True
    with "1.prems" show ?thesis
      by (simp add: digits_of_small digit_value_char_of)
  next
    case False
    then have "0 \<le> n div 10" by simp
    then have "foldl (\<lambda>a c. 10 * a + digit_value c) 0 (digits_of n) =
          10 * (n div 10) + n mod 10"
      using False "1.IH" [OF False]
      by (simp add: digits_of_large digit_value_char_of)
    then show ?thesis by simp
  qed
qed

lemma foldl_zeros:
  "foldl (\<lambda>a c. 10 * a + digit_value c) a (replicate e (CHR ''0'')) = a * 10 ^ e"
  by (induction e arbitrary: a) (simp_all add: digit_value_def)

lemma foldl_digits_nonneg:
  "\<forall>c\<in>set w. is_digit c \<Longrightarrow> 0 \<le> a \<Longrightarrow> 0 \<le> foldl (\<lambda>a c. 10 * a + digit_value c) a w"
  by (induction w arbitrary: a) (auto simp: is_digit_def digit_value_def)

lemma decimal_length_le: "x < 10 ^ j \<Longrightarrow> 1 \<le> j \<Longrightarrow> decimal_length x \<le> j"
proof (induction x arbitrary: j rule: digits_of.induct)
  case (1 n)
  show ?case
  proof (cases "n < 10")
    case True
    with "1.prems" show ?thesis
      by (simp add: decimal_length_def digits_of_small)
  next
    case False
    with "1.prems" have j: "2 \<le> j"
      by (cases j; cases "j - 1") auto
    then obtain j' where j': "j = Suc j'" "1 \<le> j'"
      by (cases j) auto
    with "1.prems" have "n div 10 < 10 ^ j'"
      by simp
    from "1.IH" [OF False this j'(2)] False j' show ?thesis
      by (simp add: decimal_length_def digits_of_large)
  qed
qed

subsection \<open>Rounding to a double\<close>

lemma round_double_nonneg: "0 \<le> n \<Longrightarrow> 0 \<le> round_double n"
  by (auto simp: round_double_def Let_def sgn_if pos_imp_zdiv_nonneg_iff
      intro!: mult_nonneg_nonneg add_nonneg_nonneg)

lemma round_double_minus: "round_double (- n) = - round_double n"
  by (simp add: round_double_def Let_def sgn_if)

lemma round_double_safe: "\<bar>i\<bar> < 2 ^ 53 \<Longrightarrow> round_double i = i"
proof -
  assume "\<bar>i\<bar> < 2 ^ 53"
  then have "bitlen \<bar>i\<bar> \<le> 53"
    by (simp add: bitlen_le_iff_power)
  then show ?thesis
    by (simp add: round_double_def Let_def)
qed

lemma Number_of_int_rounds:
  "round_double v = i \<Longrightarrow> \<bar>i\<bar> < 10 ^ 21 \<Longrightarrow> Number_of_int v = Finite i"
proof -
  assume r: "round_double v = i" and b: "\<bar>i\<bar> < 10 ^ 21"
  have "(10::int) ^ 21 < 2 ^ 1024" by simp
  with b have "i < 2 ^ 1024" "- (2 ^ 1024) < i" by linarith+
  with r show ?thesis
    by (simp add: Number_of_int_def Let_def)
qed

lemma Number_of_int_Finite:
  "round_double i = i \<Longrightarrow> \<bar>i\<bar> < 10 ^ 21 \<Longrightarrow> Number_of_int i = Finite i"
  by (rule Number_of_int_rounds)

lemma Number_of_int_nonneg:
  "0 \<le> v \<Longrightarrow> is_nonnegative (Number_of_int v)"
  using round_double_nonneg [of v] by (simp add: Number_of_int_def Let_def)

subsection \<open>Reading an index back from its property key\<close>

lemma parseInt_all_digits:
  assumes "w \<noteq> []" and "\<forall>c\<in>set w. is_digit c"
  shows "parseInt w = Number_of_int (foldl (\<lambda>a c. 10 * a + digit_value c) 0 w)"
proof -
  from assms obtain c rest where w: "w = c # rest" and c: "is_digit c"
    by (cases w) auto
  from c is_digit_not_special [of c]
  have "dropWhile is_whitespace w = w" "hd w \<noteq> CHR ''-''" "hd w \<noteq> CHR ''+''"
    by (simp_all add: w)
  moreover from assms(2) have tw: "takeWhile is_digit w = w"
    by (simp add: takeWhile_eq_all_conv)
  ultimately show ?thesis
    using assms(1) by (simp add: parseInt_def Let_def tw)
qed

lemma parseInt_minus_all_digits:
  assumes "w \<noteq> []" and "\<forall>c\<in>set w. is_digit c"
  shows "parseInt (CHR ''-'' # w) =
           Number_of_int (- foldl (\<lambda>a c. 10 * a + digit_value c) 0 w)"
proof -
  from assms(2) have tw: "takeWhile is_digit w = w"
    by (simp add: takeWhile_eq_all_conv)
  show ?thesis
    using assms(1) by (simp add: parseInt_def Let_def is_whitespace_def tw)
qed

lemma parseInt_digit_first:
  assumes "is_digit c"
  shows "is_nonnegative (parseInt (c # rest))"
proof -
  let ?Z = "takeWhile is_digit (c # rest)"
  from assms is_digit_not_special [of c]
  have d: "dropWhile is_whitespace (c # rest) = c # rest" "c \<noteq> CHR ''-''" "c \<noteq> CHR ''+''"
    by simp_all
  from assms have z: "?Z \<noteq> []" by simp
  have "\<forall>x\<in>set ?Z. is_digit x"
    by (auto dest: set_takeWhileD)
  then have "0 \<le> foldl (\<lambda>a c. 10 * a + digit_value c) 0 ?Z"
    by (rule foldl_digits_nonneg) simp
  then have "is_nonnegative (Number_of_int (foldl (\<lambda>a c. 10 * a + digit_value c) 0 ?Z))"
    by (rule Number_of_int_nonneg)
  moreover have "parseInt (c # rest) =
                   Number_of_int (foldl (\<lambda>a c. 10 * a + digit_value c) 0 ?Z)"
    using d z by (simp add: parseInt_def Let_def del: takeWhile.simps)
  ultimately show ?thesis by simp
qed

lemma closest_mem: "closest x k cs = Some c \<Longrightarrow> c \<in> set cs"
  by (induction cs arbitrary: c) (auto split: option.splits if_splits)

lemma shortest_candidates_good:
  "(s, n) \<in> set (shortest_candidates x k) \<Longrightarrow> good_digits x s n"
  by (auto simp: shortest_candidates_def good_digits_def Let_def split: if_splits)

lemma shortest_from_good:
  "0 < x \<Longrightarrow> round_double x = x \<Longrightarrow> shortest_from x k m = (s, n) \<Longrightarrow> good_digits x s n"
proof (induction m arbitrary: k)
  case 0
  then show ?case by (auto simp: good_digits_def)
next
  case (Suc m)
  show ?case
  proof (cases "closest x k (shortest_candidates x k)")
    case None
    with Suc.prems have "shortest_from x (Suc k) m = (s, n)" by simp
    from Suc.IH [OF Suc.prems(1,2) this] show ?thesis .
  next
    case (Some c)
    with Suc.prems have "c = (s, n)" by simp
    with closest_mem [OF Some] show ?thesis
      by (simp add: shortest_candidates_good)
  qed
qed

lemma shortest_from_positive:
  "0 < x \<Longrightarrow> shortest_from x k m = (s, n) \<Longrightarrow> 0 < s"
proof (induction m arbitrary: k)
  case 0
  then show ?case by simp
next
  case (Suc m)
  show ?case
  proof (cases "closest x k (shortest_candidates x k)")
    case None
    with Suc.prems have "shortest_from x (Suc k) m = (s, n)" by simp
    from Suc.IH [OF Suc.prems(1) this] show ?thesis .
  next
    case (Some c)
    with Suc.prems have "c = (s, n)" by simp
    with closest_mem [OF Some] shortest_candidates_good [of s n x k] show ?thesis
      by (simp add: good_digits_def)
  qed
qed

lemma round_double_ten_21: "round_double 1000000000000000000000 = 1000000000000000000000"
  by code_simp

lemma decimal_length_one: "decimal_length 1 = 1"
  by (simp add: decimal_length_def digits_of_small)

lemma positive_toString_numeral:
  assumes "0 < x" and "round_double x = x" and "x < 10 ^ 21"
  shows "\<exists>s e. positive_toString x = digits_of s @ replicate e (CHR ''0'') \<and> 0 < s \<and>
               round_double (s * 10 ^ e) = x"
proof -
  obtain s n where sn: "shortest_digits x = (s, n)"
    by (cases "shortest_digits x")
  then have g: "good_digits x s n"
    using shortest_from_good [OF assms(1,2)] by (simp add: shortest_digits_def)
  from assms(3) have D: "decimal_length x \<le> 21"
    by (rule decimal_length_le) simp
  have n: "n \<le> 21"
  proof (rule ccontr)
    assume "\<not> n \<le> 21"
    with g D have "n = 22" "decimal_length x = 21" "s = 1"
      by (auto simp: good_digits_def)
    with g have "round_double (10 ^ 21) = x"
      by (simp add: good_digits_def decimal_length_one)
    with assms(3) show False
      by (simp add: round_double_ten_21)
  qed
  from sn n have "positive_toString x =
      digits_of s @ replicate (n - decimal_length s) (CHR ''0'')"
    by (simp add: positive_toString_def Let_def decimal_length_def)
  with g show ?thesis
    by (auto simp: good_digits_def)
qed

lemma positive_toString_digit_first:
  assumes "0 < x"
  shows "\<exists>c rest. positive_toString x = c # rest \<and> is_digit c"
proof -
  obtain s n where sn: "shortest_digits x = (s, n)"
    by (cases "shortest_digits x")
  then have s: "0 < s"
    using shortest_from_positive [OF assms] by (simp add: shortest_digits_def)
  obtain c ds where ds: "digits_of s = c # ds"
    using digits_of_nonempty [of s] by (cases "digits_of s") auto
  with s digits_of_digits [of s c] have "is_digit c" by simp
  with sn ds show ?thesis
    by (simp add: positive_toString_def Let_def)
qed

lemma parseInt_digits_zeros:
  assumes "0 < s"
  shows "parseInt (digits_of s @ replicate e (CHR ''0'')) = Number_of_int (s * 10 ^ e)"
    and "parseInt (CHR ''-'' # digits_of s @ replicate e (CHR ''0'')) =
           Number_of_int (- (s * 10 ^ e))"
proof -
  let ?w = "digits_of s @ replicate e (CHR ''0'')"
  have ne: "?w \<noteq> []" by (simp add: digits_of_nonempty)
  have "is_digit (CHR ''0'')" by (simp add: is_digit_def)
  with assms have all: "\<forall>c\<in>set ?w. is_digit c"
    by (auto dest: digits_of_digits [rotated])
  from assms have v: "foldl (\<lambda>a c. 10 * a + digit_value c) 0 ?w = s * 10 ^ e"
    by (simp add: foldl_digits_of foldl_zeros)
  show "parseInt ?w = Number_of_int (s * 10 ^ e)"
    using parseInt_all_digits [OF ne all] v by simp
  show "parseInt (CHR ''-'' # ?w) = Number_of_int (- (s * 10 ^ e))"
    using parseInt_minus_all_digits [OF ne all] v by simp
qed

lemma parseInt_zero: "parseInt ''0'' = Finite 0"
  by code_simp

lemma parseInt_String_of_index:
  assumes "round_double i = i" and "\<bar>i\<bar> < 10 ^ 21"
  shows "parseInt (String_of_index i) = Finite i"
proof -
  have k: "String_of_index i = Number_toString (Finite i)"
    using assms by (simp add: String_of_index_def Number_of_int_Finite)
  consider "i = 0" | "0 < i" | "i < 0" by linarith
  then show ?thesis
  proof cases
    case 1
    with k show ?thesis
      by (simp add: Number_toString_def parseInt_zero)
  next
    case 2
    with assms obtain s e where
      p: "positive_toString i = digits_of s @ replicate e (CHR ''0'')" "0 < s"
         "round_double (s * 10 ^ e) = i"
      using positive_toString_numeral [of i] by auto
    have "Number_of_int (s * 10 ^ e) = Finite i"
      using p(3) assms(2) by (rule Number_of_int_rounds)
    with 2 p(1,2) show ?thesis
      by (simp add: k Number_toString_def parseInt_digits_zeros(1))
  next
    case 3
    from assms(1) have r: "round_double (- i) = - i"
      by (simp add: round_double_minus)
    with 3 assms(2) obtain s e where
      p: "positive_toString (- i) = digits_of s @ replicate e (CHR ''0'')" "0 < s"
         "round_double (s * 10 ^ e) = - i"
      using positive_toString_numeral [of "- i"] by auto
    from p(3) have "round_double (- (s * 10 ^ e)) = i"
      by (simp add: round_double_minus)
    then have "Number_of_int (- (s * 10 ^ e)) = Finite i"
      using assms(2) by (rule Number_of_int_rounds)
    with 3 p(1,2) show ?thesis
      by (simp add: k Number_toString_def parseInt_digits_zeros(2))
  qed
qed

lemma parseInt_String_of_index_nonnegative:
  assumes "0 \<le> i" and "Number_of_int i \<noteq> PosInfinity"
  shows "is_nonnegative (parseInt (String_of_index i))"
proof -
  from assms round_double_nonneg [OF assms(1)]
  obtain x where x: "Number_of_int i = Finite x" "0 \<le> x"
    by (auto simp: Number_of_int_def Let_def split: if_splits)
  show ?thesis
  proof (cases "x = 0")
    case True
    with x show ?thesis
      by (simp add: String_of_index_def Number_toString_def parseInt_zero)
  next
    case False
    with x have "0 < x" by simp
    from positive_toString_digit_first [OF this] obtain c rest where
      "positive_toString x = c # rest" "is_digit c" by auto
    with x False parseInt_digit_first [of c rest] show ?thesis
      by (simp add: String_of_index_def Number_toString_def)
  qed
qed

section \<open>Properties of the collection\<close>

lemmas example_defs =
  example_collection_def example_heap_def example_results_def example_helpers_def

text \<open>
  C8: on the base ordered collection, \<^verbatim>\<open>set(i, v)\<close> raises an error for every index \<open>i\<close>
  and every value \<open>v\<close>, and leaves the heap, and so the contents of the collection, as
  they were.
\<close>

theorem set_always_fails:
  "set_oc this h i v =
     (Inl (Error (''Assigning into a '' @ constructor_name this @ '' is not support'')), h)"
  by (simp add: set_oc_def)

text \<open>
  C9: \<^verbatim>\<open>indexOf\<close> with a defined second argument raises the assertion error "The second
  fromIndex argument is not yet supported", whatever the collection, the heap and the
  search element are, so before the backing collection is consulted; it can only succeed
  when the second argument is left out.
\<close>

theorem indexOf_fromIndex_unsupported:
  "indexOf this h x (Some k) =
     Inl (AssertionError ''The second fromIndex argument is not yet supported'') \<and>
   (indexOf this h x fromIndex = Inr r \<longrightarrow> fromIndex = None)"
  by (cases fromIndex) (simp_all add: indexOf_def assert_def)

theorem indexOf_fromIndex_unsupported_witness:
  "indexOf example_collection example_heap 21 None = Inr 1 \<and>
   indexOf example_collection example_heap 21 (Some 0) =
     Inl (AssertionError ''The second fromIndex argument is not yet supported'')"
  using indexOf_fromIndex_unsupported [of example_collection example_heap 21 0 None 1]
  by (simp add: indexOf_def assert_def indexOf_results_def example_defs)

lemma new_OrderedCollection_classHelpers:
  "new_OrderedCollection (Some (getClassHelpers, res, hlp)) name declared h = Inr this \<Longrightarrow>
   classHelpers this =
     (if objectType (cells h res) = [] then None
      else Some (getClassHelpers (objectType (cells h res))))"
  by (auto simp: new_OrderedCollection_def)

text \<open>
  C10: on a collection with class helpers, \<^verbatim>\<open>min\<close>, \<^verbatim>\<open>max\<close>, \<^verbatim>\<open>sum\<close> and \<^verbatim>\<open>avg\<close> without a
  property name raise the assertion error of \<^verbatim>\<open>assert.string(name, "name")\<close>; resolving the
  column fails likewise, so the default column key is never chosen.
\<close>

theorem aggregates_require_name:
  assumes "classHelpers this = Some ch"
  shows "getPropertyColumnKey this None = Inl (TypeAssertionError ''a string'' ''name'') \<and>
         min_oc this h None = Inl (TypeAssertionError ''a string'' ''name'') \<and>
         max_oc this h None = Inl (TypeAssertionError ''a string'' ''name'') \<and>
         sum_oc this h None = Inl (TypeAssertionError ''a string'' ''name'') \<and>
         avg this h None = Inl (TypeAssertionError ''a string'' ''name'') \<and>
         is_assertion_error (TypeAssertionError ''a string'' ''name'') \<and>
         getPropertyColumnKey this None \<noteq> Inr DEFAULT_COLUMN_KEY"
  using assms
  by (simp add: getPropertyColumnKey_def assert_string_def min_oc_def max_oc_def sum_oc_def
      avg_def)

theorem aggregates_require_name_witness:
  "classHelpers person_collection = Some \<lparr> properties = [''age'' \<mapsto> 1] \<rparr> \<and>
   min_oc person_collection example_heap None = Inl (TypeAssertionError ''a string'' ''name'') \<and>
   sum_oc person_collection example_heap None = Inl (TypeAssertionError ''a string'' ''name'')"
  using aggregates_require_name [of person_collection "\<lparr> properties = [''age'' \<mapsto> 1] \<rparr>" example_heap]
  by (simp add: person_collection_def example_collection_def)

lemma getPropertyColumnKey_resolves:
  "getPropertyColumnKey this property = Inr columnKey \<longleftrightarrow>
     (case classHelpers this of
        None \<Rightarrow> (property = None \<or> property = Some []) \<and> columnKey = DEFAULT_COLUMN_KEY
      | Some ch \<Rightarrow> (\<exists>name. property = Some name \<and> properties ch name = Some columnKey))"
  by (auto simp: getPropertyColumnKey_def assert_string_def properties_get_def
      split: option.splits)

text \<open>
  C7, as the claim states it, fails: on the empty collection of records that the
  constructor builds, the four aggregates without a property name raise the assertion
  error of the name, and on the empty collection of numbers \<^verbatim>\<open>min\<close> with a property name
  raises the error of a list of primitives.
\<close>

theorem aggregates_of_empty_counterexample:
  "new_OrderedCollection (Some (person_realm, 0, example_helpers)) ''Results''
     [PString ''realm'' \<mapsto> Data 0 False] empty_person_heap = Inr empty_person_collection \<and>
   isEmpty empty_person_collection empty_person_heap \<and>
   min_oc empty_person_collection empty_person_heap None =
     Inl (TypeAssertionError ''a string'' ''name'') \<and>
   max_oc empty_person_collection empty_person_heap None =
     Inl (TypeAssertionError ''a string'' ''name'') \<and>
   avg empty_person_collection empty_person_heap None =
     Inl (TypeAssertionError ''a string'' ''name'') \<and>
   sum_oc empty_person_collection empty_person_heap None =
     Inl (TypeAssertionError ''a string'' ''name'') \<and>
   isEmpty example_collection empty_heap \<and>
   min_oc example_collection empty_heap (Some ''age'') =
     Inl (Error (''Cannot get property named '' @ [CHR 39] @ ''age'' @ [CHR 39]
                   @ '' on a list of primitives''))"
proof -
  have c: "classHelpers empty_person_collection = Some \<lparr> properties = [''age'' \<mapsto> 1] \<rparr>"
    by (simp add: empty_person_collection_def)
  have p: "classHelpers example_collection = None"
    by (simp add: example_collection_def)
  have "new_OrderedCollection (Some (person_realm, 0, example_helpers)) ''Results''
     [PString ''realm'' \<mapsto> Data 0 False] empty_person_heap = Inr empty_person_collection"
    by (simp add: new_OrderedCollection_def empty_person_collection_def empty_person_heap_def
        empty_person_results_def person_realm_def)
  moreover have "isEmpty empty_person_collection empty_person_heap"
    by (simp add: isEmpty_def size_results_def empty_person_heap_def empty_person_results_def)
  moreover have "isEmpty example_collection empty_heap"
    by (simp add: isEmpty_def size_results_def empty_heap_def empty_results_def)
  moreover have "getPropertyColumnKey empty_person_collection None =
                   Inl (TypeAssertionError ''a string'' ''name'')"
    by (simp add: getPropertyColumnKey_def assert_string_def c)
  moreover have "getPropertyColumnKey example_collection (Some ''age'') =
      Inl (Error (''Cannot get property named '' @ [CHR 39] @ ''age'' @ [CHR 39]
                    @ '' on a list of primitives''))"
    by (simp add: getPropertyColumnKey_def p)
  ultimately show ?thesis
    by (simp add: min_oc_def max_oc_def avg_def sum_oc_def)
qed

text \<open>
  C7, amended: on an empty collection, when the property argument resolves to a column
  key (no name on a collection of primitives, a property of the class on a collection of
  records), \<^verbatim>\<open>min\<close>, \<^verbatim>\<open>max\<close> and \<^verbatim>\<open>avg\<close> give \<^verbatim>\<open>undefined\<close> and raise nothing, and \<^verbatim>\<open>sum\<close> gives
  \<open>0\<close>; when it does not resolve, each of the four raises the error of the resolution.
\<close>

theorem aggregates_of_empty:
  assumes "isEmpty this h"
  shows "(\<forall>columnKey. getPropertyColumnKey this property = Inr columnKey \<longrightarrow>
            min_oc this h property = Inr Undefined \<and>
            max_oc this h property = Inr Undefined \<and>
            avg this h property = Inr Undefined \<and>
            sum_oc this h property = Inr (Number 0)) \<and>
         (\<forall>e. getPropertyColumnKey this property = Inl e \<longrightarrow>
            min_oc this h property = Inl e \<and>
            max_oc this h property = Inl e \<and>
            avg this h property = Inl e \<and>
            sum_oc this h property = Inl e)"
proof (intro conjI allI impI)
  fix columnKey
  assume r: "getPropertyColumnKey this property = Inr columnKey"
  from assms have e: "elements (cells h (results this)) = []"
    by (simp add: isEmpty_def size_results_def)
  have z: "Number_of_bigint 0 = 0"
    by (simp add: Number_of_bigint_def round_double_def bitlen_def floorlog_def)
  show "min_oc this h property = Inr Undefined"
    using r e by (simp add: min_oc_def min_results_def)
  show "max_oc this h property = Inr Undefined"
    using r e by (simp add: max_oc_def max_results_def)
  show "avg this h property = Inr Undefined"
    using r e by (simp add: avg_def average_results_def)
  show "sum_oc this h property = Inr (Number 0)"
    using r e z
    by (cases "sum_repr (cells h (results this)) columnKey")
       (simp_all add: sum_oc_def sum_results_def)
next
  fix e
  assume r: "getPropertyColumnKey this property = Inl e"
  show "min_oc this h property = Inl e"
    using r by (simp add: min_oc_def)
  show "max_oc this h property = Inl e"
    using r by (simp add: max_oc_def)
  show "avg this h property = Inl e"
    using r by (simp add: avg_def)
  show "sum_oc this h property = Inl e"
    using r by (simp add: sum_oc_def)
qed

theorem aggregates_of_empty_witness:
  "isEmpty example_collection empty_heap \<and>
   getPropertyColumnKey example_collection None = Inr DEFAULT_COLUMN_KEY \<and>
   min_oc example_collection empty_heap None = Inr Undefined \<and>
   max_oc example_collection empty_heap None = Inr Undefined \<and>
   avg example_collection empty_heap None = Inr Undefined \<and>
   sum_oc example_collection empty_heap None = Inr (Number 0) \<and>
   getPropertyColumnKey example_collection (Some ''age'') =
     Inl (Error (''Cannot get property named '' @ [CHR 39] @ ''age'' @ [CHR 39]
                   @ '' on a list of primitives'')) \<and>
   sum_oc example_collection empty_heap (Some ''age'') =
     Inl (Error (''Cannot get property named '' @ [CHR 39] @ ''age'' @ [CHR 39]
                   @ '' on a list of primitives''))"
proof -
  have 1: "isEmpty example_collection empty_heap"
    by (simp add: isEmpty_def size_results_def empty_heap_def empty_results_def)
  have 2: "getPropertyColumnKey example_collection None = Inr DEFAULT_COLUMN_KEY"
    by (simp add: getPropertyColumnKey_def example_collection_def)
  have 3: "getPropertyColumnKey example_collection (Some ''age'') =
     Inl (Error (''Cannot get property named '' @ [CHR 39] @ ''age'' @ [CHR 39]
                   @ '' on a list of primitives''))"
    by (simp add: getPropertyColumnKey_def example_collection_def)
  show ?thesis
    using aggregates_of_empty [OF 1, of None] aggregates_of_empty [OF 1, of "Some ''age''"] 1 2 3
    by simp
qed

section \<open>Indexed access through the proxy\<close>

lemma length_oc_nonneg: "0 \<le> length_oc target h"
  by (simp add: length_oc_def size_results_def)


text \<open>
  The constructor gives a target without integer-like members when the class declares
  none, and no write through the proxy adds one: such a key never reaches
  \<^verbatim>\<open>Reflect.set\<close>.
\<close>

lemma Reflect_set_index_free:
  "index_free target \<Longrightarrow> parseInt s = NaN \<Longrightarrow> index_free (snd (Reflect_set target (PString s) v))"
  by (auto simp: index_free_def Reflect_set_def split: option.splits member.splits)

lemma Reflect_set_symbol_index_free:
  "index_free target \<Longrightarrow> index_free (snd (Reflect_set target (PSymbol y) v))"
  by (auto simp: index_free_def Reflect_set_def split: option.splits member.splits)

lemma PROXY_HANDLER_set_index_free:
  "index_free target \<Longrightarrow>
   index_free (fst (snd (PROXY_HANDLER_set target_set target h prop v)))"
proof (cases "prop")
  case (PString s)
  assume "index_free target"
  then show ?thesis
    using PString Reflect_set_index_free [of target s v]
    by (cases "parseInt s")
       (auto simp: PROXY_HANDLER_set_def Let_def split: prod.splits sum.splits)
next
  case (PSymbol y)
  assume "index_free target"
  then show ?thesis
    using PSymbol Reflect_set_symbol_index_free [of target y v]
    by (simp add: PROXY_HANDLER_set_def Let_def)
qed

lemma new_OrderedCollection_index_free:
  "new_OrderedCollection arguments name declared h = Inr this \<Longrightarrow>
   \<forall>s. declared (PString s) \<noteq> None \<longrightarrow> parseInt s = NaN \<Longrightarrow> index_free this"
  by (auto simp: new_OrderedCollection_def index_free_def split: option.splits)


lemma String_of_index_examples:
  "String_of_index 1 = ''1''" "String_of_index 5 = ''5''" "String_of_index (- 1) = ''-1''"
  by code_simp+


lemma parseInt_examples:
  "parseInt ''5'' = Finite 5" "parseInt ''1e+21'' = Finite 1"
  by code_simp+



lemma round_double_examples:
  "round_double 1 = 1" "round_double 5 = 5" "round_double (- 1) = - 1"
  by (simp_all add: round_double_safe)


text \<open>
  C1, as the claim states it, fails: in the collection of three numbers the write at
  index \<open>5\<close> through the proxy reaches \<^verbatim>\<open>set\<close>, which raises; it is not the ordinary
  assignment of \<^verbatim>\<open>Reflect.set\<close>.
\<close>

theorem write_beyond_length_counterexample:
  "length_oc example_collection example_heap \<le> 5 \<and>
   String_of_index 5 = ''5'' \<and>
   PROXY_HANDLER_set set_oc example_collection example_heap (PString ''5'') 7 =
     (Inl (Error ''Assigning into a Results is not support''), example_collection, example_heap) \<and>
   PROXY_HANDLER_set set_oc example_collection example_heap (PString ''5'') 7 \<noteq>
     (Inr (fst (Reflect_set example_collection (PString ''5'') 7)),
      snd (Reflect_set example_collection (PString ''5'') 7), example_heap)"
proof -
  have l: "length_oc example_collection example_heap = 3"
    by (simp add: length_oc_def size_results_def example_defs)
  have c: "constructor_name example_collection = ''Results''"
    by (simp add: example_collection_def)
  show ?thesis
    by (simp add: PROXY_HANDLER_set_def Let_def parseInt_examples l c set_oc_def
        String_of_index_examples)
qed

text \<open>
  C1, amended: for every index \<open>i\<close> at or beyond the length that is finite as a number,
  and every value, the write through the proxy is routed to the \<^verbatim>\<open>set\<close> method of the
  collection with the index that \<^verbatim>\<open>parseInt\<close> reads from the property key, since the handler
  checks no upper bound; on the base ordered collection it raises the error of \<^verbatim>\<open>set\<close>,
  and neither the collection nor the target object changes. The index that \<^verbatim>\<open>set\<close> gets is
  \<open>i\<close> itself when \<open>i\<close> is a number of the language below \<open>10 ^ 21\<close>.
\<close>

theorem write_beyond_length_routed:
  assumes "length_oc target h \<le> i"
  shows "(Number_of_int i \<noteq> PosInfinity \<longrightarrow>
            PROXY_HANDLER_set target_set target h (PString (String_of_index i)) v =
              (case target_set target h (parseInt (String_of_index i)) v of
                 (Inl e, h') \<Rightarrow> (Inl e, target, h')
               | (Inr u, h') \<Rightarrow> (Inr True, target, h')) \<and>
            PROXY_HANDLER_set set_oc target h (PString (String_of_index i)) v =
              (Inl (Error (''Assigning into a '' @ constructor_name target
                             @ '' is not support'')), target, h)) \<and>
         (round_double i = i \<and> i < 10 ^ 21 \<longrightarrow>
            parseInt (String_of_index i) = Finite i \<and>
            PROXY_HANDLER_set target_set target h (PString (String_of_index i)) v =
              (case target_set target h (Finite i) v of
                 (Inl e, h') \<Rightarrow> (Inl e, target, h')
               | (Inr u, h') \<Rightarrow> (Inr True, target, h')))"
proof -
  from assms length_oc_nonneg [of target h] have i: "0 \<le> i" by simp
  have "is_nonnegative (parseInt (String_of_index i))" if "Number_of_int i \<noteq> PosInfinity"
    using i that by (rule parseInt_String_of_index_nonnegative)
  moreover have "parseInt (String_of_index i) = Finite i" if "round_double i = i" "i < 10 ^ 21"
    using that i by (intro parseInt_String_of_index) simp_all
  ultimately show ?thesis
    using i by (simp add: PROXY_HANDLER_set_def Let_def set_oc_def)
qed

theorem write_beyond_length_routed_witness:
  "length_oc example_collection example_heap \<le> 5 \<and>
   Number_of_int 5 \<noteq> PosInfinity \<and> round_double 5 = 5 \<and> (5::int) < 10 ^ 21 \<and>
   parseInt (String_of_index 5) = Finite 5 \<and>
   PROXY_HANDLER_set set_oc example_collection example_heap (PString ''5'') 7 =
     (Inl (Error ''Assigning into a Results is not support''), example_collection, example_heap)"
proof -
  have l: "length_oc example_collection example_heap \<le> 5"
    by (simp add: length_oc_def size_results_def example_defs)
  have c: "constructor_name example_collection = ''Results''"
    by (simp add: example_collection_def)
  have n: "Number_of_int 5 = Finite 5"
    by (rule Number_of_int_Finite) (simp_all add: round_double_examples)
  show ?thesis
    using write_beyond_length_routed [OF l, of set_oc 7] l n
    by (simp add: String_of_index_examples c set_oc_def round_double_examples)
qed

section \<open>Iteration and snapshots\<close>

lemma spread_snapshot:
  "keys_size (values_keys it) = int (length (elements (cells h (values_snapshot it)))) \<Longrightarrow>
   0 \<le> keys_index (values_keys it) \<Longrightarrow>
   spread h it =
     Inr (map (values_fromBinding it)
            (drop (nat (keys_index (values_keys it))) (elements (cells h (values_snapshot it)))))"
proof (induction h it rule: spread.induct)
  case (1 h it)
  let ?xs = "elements (cells h (values_snapshot it))"
  let ?k = "keys_index (values_keys it)"
  show ?case
  proof (cases "?k < keys_size (values_keys it)")
    case False
    with "1.prems" have "drop (nat ?k) ?xs = []" by simp
    moreover from False have "values_next h it = (Inr None, it\<lparr>values_keys := values_keys it\<rparr>)"
      by (simp add: values_next_def keys_next_def)
    ultimately show ?thesis
      by (subst spread.simps) simp
  next
    case True
    let ?it' = "it\<lparr>values_keys := (values_keys it)\<lparr>keys_index := ?k + 1\<rparr>\<rparr>"
    from True "1.prems" have lt: "nat ?k < length ?xs" by simp
    from True "1.prems" have nx:
      "values_next h it = (Inr (Some (values_fromBinding it (?xs ! nat ?k))), ?it')"
      by (simp add: values_next_def keys_next_def helpers_get_def get_results_def
          size_results_def)
    have "spread h ?it' =
            Inr (map (values_fromBinding ?it')
                   (drop (nat (keys_index (values_keys ?it'))) (elements (cells h (values_snapshot ?it')))))"
      using "1.prems" by (intro "1.IH" [OF nx [symmetric] refl refl]) simp_all
    then have "spread h ?it' = Inr (map (values_fromBinding it) (drop (Suc (nat ?k)) ?xs))"
      using "1.prems"(2) by (simp add: nat_add_distrib)
    with nx show ?thesis
      by (subst spread.simps) (simp add: Cons_nth_drop_Suc [OF lt, symmetric])
  qed
qed

text \<open>
  C5: an iterator made by \<^verbatim>\<open>values()\<close>, or by default iteration, before a change of the live collection yields, after
  the change, the elements and the length of the collection as they were when it was
  made; \<^verbatim>\<open>length\<close> and \<^verbatim>\<open>get(index)\<close> on the facade after the change give the new state.
  The live handle is one that the heap has given out.
\<close>

theorem iterator_reads_snapshot:
  assumes "results this < next_handle h"
  shows "Symbol_iterator this h = values_oc this h \<and>
         (case values_oc this h of
            (it, h') \<Rightarrow>
              keys_size (values_keys it) = length_oc this h \<and>
              spread (write_results (results this) f h') it =
                Inr (map (fromBinding (helpers this)) (elements (cells h (results this)))) \<and>
              length_oc this (write_results (results this) f h') =
                int (length (f (elements (cells h (results this))))) \<and>
              (\<forall>i. 0 \<le> i \<and> i < length_oc this (write_results (results this) f h') \<longrightarrow>
                 get this (write_results (results this) f h') i =
                   Inr (fromBinding (helpers this)
                          (f (elements (cells h (results this))) ! nat i))))"
proof -
  let ?r = "results this"
  let ?s = "next_handle h"
  let ?h' = "h\<lparr>cells := (cells h)(?s := cells h ?r), next_handle := Suc ?s\<rparr>"
  let ?it = "\<lparr> values_snapshot = ?s, values_fromBinding = fromBinding (helpers this),
              values_keys = keys this ?h' \<rparr>"
  let ?h2 = "write_results ?r f ?h'"
  from assms have ne: "?r \<noteq> ?s" by simp
  have v: "values_oc this h = (?it, ?h')"
    by (simp add: values_oc_def snapshot_results_def Let_def)
  have snap: "cells ?h2 ?s = cells h ?r"
    using ne by (simp add: write_results_def)
  have live: "elements (cells ?h2 ?r) = f (elements (cells h ?r))"
    using ne by (simp add: write_results_def)
  have ks: "keys_size (values_keys ?it) = length_oc this h"
    using ne by (simp add: keys_def length_oc_def)
  have "spread ?h2 ?it =
          Inr (map (values_fromBinding ?it)
                 (drop (nat (keys_index (values_keys ?it)))
                    (elements (cells ?h2 (values_snapshot ?it)))))"
    using ne by (intro spread_snapshot) (simp_all add: snap keys_def size_results_def)
  then have sp: "spread ?h2 ?it = Inr (map (fromBinding (helpers this)) (elements (cells h ?r)))"
    by (simp add: snap keys_def)
  have len: "length_oc this ?h2 = int (length (f (elements (cells h ?r))))"
    by (simp add: length_oc_def size_results_def live)
  have gt: "\<forall>i. 0 \<le> i \<and> i < length_oc this ?h2 \<longrightarrow>
              get this ?h2 i = Inr (fromBinding (helpers this) (f (elements (cells h ?r)) ! nat i))"
    by (simp add: get_def helpers_get_def get_results_def length_oc_def size_results_def live)
  have si: "Symbol_iterator this h = values_oc this h"
    by (simp add: Symbol_iterator_def)
  show ?thesis
    using si ks sp len gt unfolding v by simp
qed

theorem iterator_reads_snapshot_witness:
  "results example_collection < next_handle example_heap \<and>
   spread (write_results 0 (\<lambda>xs. [7]) (snd (values_oc example_collection example_heap)))
     (fst (values_oc example_collection example_heap)) = Inr [11, 21, 31] \<and>
   length_oc example_collection
     (write_results 0 (\<lambda>xs. [7]) (snd (values_oc example_collection example_heap))) = 1 \<and>
   get example_collection
     (write_results 0 (\<lambda>xs. [7]) (snd (values_oc example_collection example_heap))) 0 = Inr 8"
proof -
  have a: "results example_collection < next_handle example_heap"
    by (simp add: example_defs)
  have r: "results example_collection = 0" "helpers example_collection = example_helpers"
    by (simp_all add: example_collection_def)
  have e: "elements (cells example_heap 0) = [10, 20, 30]"
    by (simp add: example_heap_def example_results_def)
  have fb: "fromBinding example_helpers = (\<lambda>b. b + 1)"
    by (simp add: example_helpers_def)
  show ?thesis
    using iterator_reads_snapshot [OF a, of "\<lambda>xs. [7]"] a
    by (simp add: r e fb split: prod.splits)
qed

section \<open>Sorting descriptors\<close>

text \<open>
  C4: \<^verbatim>\<open>sorted("name")\<close>, \<^verbatim>\<open>sorted([["name", false]])\<close> and \<^verbatim>\<open>sorted("name", false)\<close> give the
  same result, and so do \<^verbatim>\<open>sorted(true)\<close> and \<^verbatim>\<open>sorted([["self", true]])\<close>; every list of
  descriptors reaches the engine as pairs of path and ascending flag, a string being
  ascending and a pair with the descending flag \<open>True\<close> having the ascending flag \<open>False\<close>.
\<close>

theorem sorted_call_shapes:
  "sorted_oc this h (Arg0_string name) None =
     sorted_oc this h (Arg0_array [Pair name False]) None \<and>
   sorted_oc this h (Arg0_string name) (Some False) =
     sorted_oc this h (Arg0_array [Pair name False]) None \<and>
   sorted_oc this h (Arg0_boolean True) None =
     sorted_oc this h (Arg0_array [Pair ''self'' True]) None \<and>
   sorted_oc this h (Arg0_array [Pair name False]) None =
     sortByNames h (results this) [(name, True)] \<and>
   sorted_oc this h (Arg0_array [Pair ''self'' True]) None =
     sortByNames h (results this) [(''self'', False)] \<and>
   sorted_oc this h (Arg0_array descriptors) arg1 =
     sortByNames h (results this) (map descriptor descriptors) \<and>
   descriptor (Name path) = (path, True) \<and>
   descriptor (Pair path True) = (path, False) \<and>
   descriptor (Pair path reverse) = (path, \<not> reverse)"
  by simp

section \<open>Change sets and listeners\<close>

lemma indices_between_upt: "indices_between a b = [a..<b]"
proof (induction a b rule: indices_between.induct)
  case (1 i b)
  show ?case
  proof (cases "i < b")
    case True
    with "1.IH" show ?thesis
      by (subst indices_between.simps) (simp add: upt_conv_Cons)
  next
    case False
    then show ?thesis
      by (subst indices_between.simps) simp
  qed
qed

lemma unwind_concat: "unwind ranges = concat (map (\<lambda>(a, b). [a..<b]) ranges)"
  by (induction ranges) (auto simp: indices_between_upt)

lemma length_unwind: "length (unwind ranges) = sum_list (map (\<lambda>(a, b). b - a) ranges)"
  by (induction ranges) (auto simp: indices_between_upt)

lemma set_unwind: "set (unwind ranges) = (\<Union>(a, b)\<in>set ranges. {a..<b})"
  by (induction ranges) (auto simp: indices_between_upt)

lemma ascending_ranges_head: "ascending_ranges ((c, d) # ranges) \<Longrightarrow> c \<le> d"
  by (cases ranges) auto

lemma unwind_lower_bound:
  "ascending_ranges ((a, b) # ranges) \<Longrightarrow> x \<in> set (unwind ranges) \<Longrightarrow> b \<le> x"
proof (induction ranges arbitrary: a b)
  case Nil
  then show ?case by simp
next
  case (Cons r ranges)
  obtain c d where r: "r = (c, d)" by (cases r)
  from Cons.prems(1) r have rest: "ascending_ranges ((c, d) # ranges)"
    by simp
  from Cons.prems(1) r ascending_ranges_head [OF rest] have o: "b \<le> c \<and> c \<le> d"
    by simp
  from Cons.prems(2) r have "x \<in> {c..<d} \<or> x \<in> set (unwind ranges)"
    by (auto simp: indices_between_upt)
  then show ?case
  proof
    assume "x \<in> {c..<d}"
    with o show ?thesis by simp
  next
    assume "x \<in> set (unwind ranges)"
    from Cons.IH [OF rest this] o show ?thesis by simp
  qed
qed

lemma ascending_ranges_tail: "ascending_ranges (r # ranges) \<Longrightarrow> ascending_ranges ranges"
  by (cases r; cases ranges) auto

lemma sorted_unwind: "ascending_ranges ranges \<Longrightarrow> sorted_wrt (<) (unwind ranges)"
proof (induction ranges)
  case Nil
  then show ?case by simp
next
  case (Cons r ranges)
  obtain a b where r: "r = (a, b)" by (cases r)
  have "sorted_wrt (<) (unwind ranges)"
    using Cons.IH ascending_ranges_tail [OF Cons.prems] by simp
  moreover have "\<forall>x\<in>set [a..<b]. \<forall>y\<in>set (unwind ranges). x < y"
    using unwind_lower_bound [of a b ranges] Cons.prems r by fastforce
  ultimately show ?case
    using r by (simp add: indices_between_upt sorted_wrt_append)
qed

text \<open>
  C6: for ascending ranges that do not overlap, \<^verbatim>\<open>unwind\<close> gives the indices the ranges
  cover, range after range and in strictly ascending order; its length is the sum of the
  widths of the ranges; \<open>[[0,3],[5,6]]\<close> gives \<open>[0,1,2,5]\<close>.
\<close>

theorem unwind_flattens:
  assumes "ascending_ranges ranges"
  shows "unwind ranges = concat (map (\<lambda>(a, b). [a..<b]) ranges) \<and>
         sorted_wrt (<) (unwind ranges) \<and>
         set (unwind ranges) = (\<Union>(a, b)\<in>set ranges. {a..<b}) \<and>
         length (unwind ranges) = sum_list (map (\<lambda>(a, b). b - a) ranges) \<and>
         unwind [(0, 3), (5, 6)] = [0, 1, 2, 5]"
proof -
  have "unwind [(0, 3), (5, 6)] = [0, 1, 2, 5::nat]"
    by code_simp
  then show ?thesis
    by (intro conjI unwind_concat sorted_unwind [OF assms] set_unwind length_unwind)
qed

theorem unwind_flattens_witness:
  "ascending_ranges [(0, 3), (5, 6)] \<and> unwind [(0, 3), (5, 6)] = [0, 1, 2, 5] \<and>
   length (unwind [(0, 3), (5, 6)]) = (3 - 0) + (6 - 5)"
proof -
  have a: "ascending_ranges [(0, 3), (5, 6)]" by simp
  have e: "unwind [(0, 3), (5, 6)] = [0, 1, 2, 5]"
    using unwind_flattens [OF a] by (elim conjE)
  have "length (unwind [(0, 3), (5, 6)]) = (3 - 0) + (6 - 5)"
    by (simp only: e) simp
  with a e show ?thesis by (intro conjI)
qed

text \<open>
  C3: with two listeners of which the first raises, no error leaves the delivery; the
  second listener is called in the same delivery with the same change set, on the state
  the first one left; the error of the first is in the queue of \<^verbatim>\<open>setImmediate\<close> and is
  thrown only when the event loop runs that queue, after the delivery.
\<close>

theorem listener_error_isolated:
  assumes "first this (changeSet changes) (application rt) = (Some err, s)"
  shows "deliver (addListener this second (addListener this first [])) changes rt =
           (None,
            rt\<lparr>application := snd (second this (changeSet changes) s),
               immediates := immediates rt @ err #
                 (case fst (second this (changeSet changes) s) of
                    None \<Rightarrow> [] | Some err' \<Rightarrow> [err'])\<rparr>) \<and>
         (immediates rt = [] \<longrightarrow>
            fst (run_immediate
                   (snd (deliver (addListener this second (addListener this first []))
                           changes rt))) = Some err)"
  using assms
  by (cases "second this (changeSet changes) s")
     (auto simp: addListener_def notificationCallback_def run_immediate_def
        split: option.splits)

theorem listener_error_isolated_witness:
  "failing_listener 0 (changeSet example_changes) (application example_runtime) =
     (Some ''first failed'', [(''first'', changeSet example_changes)]) \<and>
   deliver (addListener 0 logging_listener (addListener 0 failing_listener []))
     example_changes example_runtime =
     (None, \<lparr> application = [(''first'', changeSet example_changes),
                              (''second'', changeSet example_changes)],
              immediates = [''first failed''] \<rparr>) \<and>
   immediates example_runtime = [] \<and>
   fst (run_immediate
          (snd (deliver (addListener 0 logging_listener (addListener 0 failing_listener []))
                  example_changes example_runtime))) = Some ''first failed''"
proof -
  have f: "failing_listener 0 (changeSet example_changes) (application example_runtime) =
             (Some ''first failed'', [(''first'', changeSet example_changes)])"
    by (simp add: failing_listener_def example_runtime_def)
  show ?thesis
    using listener_error_isolated [where first = failing_listener and this = 0
        and changes = example_changes and rt = example_runtime and second = logging_listener,
        OF f] f
    by (simp add: logging_listener_def example_runtime_def run_immediate_def)
qed

end
